theory Spec2Isabelle
  imports Complex_Main "HOL-Library.Multiset"
begin

section \<open>The scheduling engine of \<open>app.component.ts\<close>\<close>

text \<open>
  The component keeps a list of topics, each with a list of review sessions, and
  reschedules the sessions as the learner rates them. The embedding follows the
  TypeScript function by function. Its conventions:

  \<^item> A \<^verbatim>\<open>Date\<close> and the ISO string \<^verbatim>\<open>toISOString()\<close> prints for it are one
    integer, the time value in milliseconds since the epoch; \<^verbatim>\<open>new Date(iso)\<close> reads
    the same integer back, and \<^verbatim>\<open>===\<close> on two such strings is equality of the
    integers. The range limit of \<^verbatim>\<open>Date\<close> (8.64e15 ms either side of the epoch) is
    not part of the model: time values are unbounded integers.
  \<^item> \<^verbatim>\<open>iso.split('T')[0]\<close> is the UTC calendar day, the time value divided by
    86400000 and rounded down.
  \<^item> \<^verbatim>\<open>setDate(getDate() + n)\<close> moves a date by \<open>n\<close> days of local time; the local
    zone is taken to have a fixed offset, so that this adds \<open>n * 86400000\<close> ms.
  \<^item> A JavaScript number that is not a time value is an exact rational: products
    such as \<^verbatim>\<open>interval * multiplier\<close> are computed without the rounding of doubles.
  \<^item> Every \<^verbatim>\<open>new Date()\<close> of one call reads the same instant, the parameter \<open>now\<close>.
\<close>

subsection \<open>Data model\<close>

datatype session_type = Initial | Standard | Final | Recovery

datatype rating = Hard | Good | Easy

record ReviewSession =
  date :: int
  completed :: bool
  completedDate :: "int option"
  interval :: int
  type :: session_type
  rating :: "rating option"

text \<open>
  \<^verbatim>\<open>nextReviewDate\<close> is a string: the ISO date of a session, or one of the two
  literals \<^verbatim>\<open>'Completed'\<close> and \<^verbatim>\<open>'No Reviews Scheduled'\<close>.
\<close>

datatype next_review = NextAt int | Completed | NoReviewsScheduled

record Topic =
  topic_id :: string
  name :: string
  addedDate :: int
  examDate :: "int option"
  complexity :: int
  subtopics :: "string list"
  summary :: string
  reviews :: "ReviewSession list"
  nextReviewDate :: next_review
  mastery :: int
  topic_notes :: "string option"

subsection \<open>Dates and numbers\<close>

definition DAY :: int where
  "DAY = 1000 * 60 * 60 * 24"

text \<open>\<^verbatim>\<open>iso.split('T')[0]\<close>, as the number of the UTC day.\<close>

definition dayOf :: "int \<Rightarrow> int" where
  "dayOf t = t div DAY"

text \<open>\<^verbatim>\<open>d.setDate(d.getDate() + n)\<close>.\<close>

definition addDays :: "int \<Rightarrow> int \<Rightarrow> int" where
  "addDays t n = t + n * DAY"

text \<open>\<^verbatim>\<open>Math.round\<close> rounds a half upwards.\<close>

definition js_round :: "rat \<Rightarrow> int" where
  "js_round x = \<lfloor>x + 1 / 2\<rfloor>"

text \<open>
  \<^verbatim>\<open>new Date(x)\<close> on a number drops the fraction of a millisecond, towards zero.
\<close>

definition js_trunc :: "rat \<Rightarrow> int" where
  "js_trunc x = (if 0 \<le> x then \<lfloor>x\<rfloor> else \<lceil>x\<rceil>)"

subsection \<open>generateSchedule\<close>

definition multiplier_of :: "int \<Rightarrow> rat" where
  "multiplier_of c = max (13 / 10) (5 / 2 - of_int c * (12 / 100))"

text \<open>
  The \<^verbatim>\<open>while (maxReviews > 0)\<close> loop. Its state is the schedule built so far, the
  running interval and the running date; \<open>maxReviews\<close> counts down from 20.
\<close>

fun schedule_loop ::
  "nat \<Rightarrow> int option \<Rightarrow> rat \<Rightarrow> ReviewSession list \<Rightarrow> rat \<Rightarrow> int \<Rightarrow> ReviewSession list" where
  "schedule_loop 0 exam m schedule ival runningDate = schedule"
| "schedule_loop (Suc maxReviews) exam m schedule ival runningDate =
     (if (case exam of None \<Rightarrow> False | Some e \<Rightarrow> runningDate > e) then schedule
      else
        let schedule' = schedule @
              [\<lparr>date = runningDate, completed = False, completedDate = None,
                interval = js_round ival,
                type = (if length schedule = 0 then Initial else Standard),
                rating = None\<rparr>];
            ival' = ival * m;
            nextJump = \<lceil>ival'\<rceil>;
            nextDate = addDays runningDate nextJump
        in schedule_loop maxReviews exam m schedule' ival' nextDate)"

text \<open>The reconciliation with the exam date, after the loop.\<close>

definition reconcile :: "int option \<Rightarrow> ReviewSession list \<Rightarrow> ReviewSession list" where
  "reconcile exam schedule =
     (case exam of
        None \<Rightarrow> schedule
      | Some e \<Rightarrow>
          if length schedule = 0 then
            schedule @ [\<lparr>date = e, completed = False, completedDate = None,
                          interval = 0, type = Final, rating = None\<rparr>]
          else
            let lastReviewDate = date (last schedule);
                diffTime = e - lastReviewDate;
                diffDays = \<lceil>rat_of_int diffTime / rat_of_int DAY\<rceil>
            in if diffDays > 4 then
                 let finalReview = addDays e (- 2)
                 in if finalReview > lastReviewDate then
                      schedule @ [\<lparr>date = finalReview, completed = False,
                                    completedDate = None, interval = diffDays - 2,
                                    type = Final, rating = None\<rparr>]
                    else schedule
               else schedule)"

definition generateSchedule :: "int \<Rightarrow> int \<Rightarrow> int option \<Rightarrow> ReviewSession list" where
  "generateSchedule now c exam =
     reconcile exam (schedule_loop 20 exam (multiplier_of c) [] 1 (addDays now 1))"

subsection \<open>Array helpers\<close>

text \<open>
  \<^verbatim>\<open>Array.prototype.findIndex\<close>: the callback sees the element and its index; the
  result is the first index it accepts, and \<open>None\<close> stands for \<^verbatim>\<open>-1\<close>.
\<close>

fun findIndex_from :: "('a \<Rightarrow> nat \<Rightarrow> bool) \<Rightarrow> nat \<Rightarrow> 'a list \<Rightarrow> nat option" where
  "findIndex_from p k [] = None"
| "findIndex_from p k (x # xs) = (if p x k then Some k else findIndex_from p (Suc k) xs)"

definition findIndex :: "('a \<Rightarrow> nat \<Rightarrow> bool) \<Rightarrow> 'a list \<Rightarrow> nat option" where
  "findIndex p xs = findIndex_from p 0 xs"

subsection \<open>markReviewComplete\<close>

text \<open>
  The block under \<^verbatim>\<open>DYNAMIC RESCHEDULING LOGIC\<close>. \<open>revs\<close> is the copied review list
  with the session at \<open>reviewIndex\<close> already marked. \<^verbatim>\<open>Array.prototype.sort\<close> is stable,
  as is \<^const>\<open>sort_key\<close>.
\<close>

definition reschedule :: "int \<Rightarrow> nat \<Rightarrow> rating \<Rightarrow> ReviewSession list \<Rightarrow> ReviewSession list" where
  "reschedule now reviewIndex rt revs =
     (case rt of
        Hard \<Rightarrow>
          let tomorrow = addDays now 1;
              exists = list_ex (\<lambda>r. dayOf (date r) = dayOf tomorrow) revs
          in if \<not> exists then
               sort_key date
                 (revs @ [\<lparr>date = tomorrow, completed = False, completedDate = None,
                            interval = 1, type = Recovery, rating = None\<rparr>])
             else revs
      | Easy \<Rightarrow>
          (case findIndex (\<lambda>r idx. idx > reviewIndex \<and> \<not> completed r \<and> type r \<noteq> Final) revs of
             None \<Rightarrow> revs
           | Some nextIndex \<Rightarrow>
               let nextReview = revs ! nextIndex;
                   oldDate = date nextReview;
                   today = now;
                   currentDiff = oldDate - today;
                   newDiff = rat_of_int currentDiff * (13 / 10);
                   newDate = js_trunc (rat_of_int today + newDiff)
               in sort_key date
                    (revs[nextIndex := nextReview
                       \<lparr>date := newDate, interval := \<lceil>newDiff / rat_of_int DAY\<rceil>\<rparr>]))
      | Good \<Rightarrow> revs)"

text \<open>The three lines that compute \<^verbatim>\<open>newMastery\<close>.\<close>

definition newMastery :: "ReviewSession list \<Rightarrow> int" where
  "newMastery revs =
     (let completedCount = length (filter completed revs);
          goodOrEasyCount = length (filter (\<lambda>r. completed r \<and>
             (rating r = Some Good \<or> rating r = Some Easy)) revs)
      in if completedCount > 0
         then js_round (rat_of_int (int goodOrEasyCount) / rat_of_int (int completedCount) * 100)
         else 0)"

text \<open>The callback of \<^verbatim>\<open>topics.map\<close>.\<close>

definition completeReview :: "int \<Rightarrow> string \<Rightarrow> int \<Rightarrow> rating \<Rightarrow> Topic \<Rightarrow> Topic" where
  "completeReview now topicId reviewDate rt t =
     (if topic_id t \<noteq> topicId then t
      else
        case findIndex (\<lambda>r idx. date r = reviewDate) (reviews t) of
          None \<Rightarrow> t
        | Some reviewIndex \<Rightarrow>
            let marked = (reviews t)[reviewIndex := (reviews t ! reviewIndex)
                  \<lparr>completed := True, rating := Some rt, completedDate := Some now\<rparr>];
                revs = reschedule now reviewIndex rt marked;
                next = find (\<lambda>r. \<not> completed r \<and> date r \<ge> now) revs
            in t\<lparr>reviews := revs,
                 mastery := newMastery revs,
                 nextReviewDate := (case next of Some r \<Rightarrow> NextAt (date r) | None \<Rightarrow> Completed)\<rparr>)"

definition markReviewComplete :: "int \<Rightarrow> string \<Rightarrow> int \<Rightarrow> rating \<Rightarrow> Topic list \<Rightarrow> Topic list" where
  "markReviewComplete now topicId reviewDate rt topics =
     map (completeReview now topicId reviewDate rt) topics"

subsection \<open>The other operations on the topic collection\<close>

text \<open>
  \<^verbatim>\<open>analyzeAndAddTopic\<close>, after the form check and the answer of the analysis
  service: \<open>newId\<close> is the value of \<^verbatim>\<open>crypto.randomUUID()\<close>, and \<open>c\<close>, \<open>subs\<close>, \<open>summ\<close>
  are the fields of the analysis.
\<close>

definition analyzeAndAddTopic ::
  "int \<Rightarrow> string \<Rightarrow> string \<Rightarrow> int option \<Rightarrow> int \<Rightarrow> string list \<Rightarrow> string \<Rightarrow> Topic list \<Rightarrow> Topic list" where
  "analyzeAndAddTopic now newId nm exam c subs summ topics =
     (let revs = generateSchedule now c exam;
          newTopic = \<lparr>topic_id = newId, name = nm, addedDate = now, examDate = exam,
                      complexity = c, subtopics = subs, summary = summ, reviews = revs,
                      nextReviewDate = (if length revs > 0 then NextAt (date (hd revs))
                                        else NoReviewsScheduled),
                      mastery = 0, topic_notes = Some []\<rparr>
      in newTopic # topics)"

definition updateNotes :: "string \<Rightarrow> string \<Rightarrow> Topic list \<Rightarrow> Topic list" where
  "updateNotes topicId text topics =
     map (\<lambda>t. if topic_id t = topicId then t\<lparr>topic_notes := Some text\<rparr> else t) topics"

text \<open>\<open>confirmed\<close> is the answer to the \<^verbatim>\<open>confirm\<close> dialogue.\<close>

definition deleteTopic :: "bool \<Rightarrow> string \<Rightarrow> Topic list \<Rightarrow> Topic list" where
  "deleteTopic confirmed topicId topics =
     (if confirmed then filter (\<lambda>t. topic_id t \<noteq> topicId) topics else topics)"

text \<open>
  The collections the component can hold: it starts empty, and every user action
  is one of the four operations.
\<close>

inductive reachable :: "Topic list \<Rightarrow> bool" where
  start: "reachable []"
| added: "reachable ts \<Longrightarrow> reachable (analyzeAndAddTopic now newId nm exam c subs summ ts)"
| marked: "reachable ts \<Longrightarrow> reachable (markReviewComplete now topicId reviewDate rt ts)"
| noted: "reachable ts \<Longrightarrow> reachable (updateNotes topicId text ts)"
| deleted: "reachable ts \<Longrightarrow> reachable (deleteTopic confirmed topicId ts)"

subsection \<open>activityHeatmap\<close>







subsection \<open>Auxiliary notions of the properties\<close>

text \<open>The first session is \<open>Initial\<close> and the others are \<open>Standard\<close>.\<close>

definition well_typed :: "ReviewSession list \<Rightarrow> bool" where
  "well_typed s =
     (case s of [] \<Rightarrow> True
      | x # xs \<Rightarrow> type x = Initial \<and> list_all (\<lambda>r. type r = Standard) xs)"

text \<open>The session the \<open>Hard\<close> branch pushes, and the session the \<open>Easy\<close> branch writes back.\<close>

definition recovery_session :: "int \<Rightarrow> ReviewSession" where
  "recovery_session now = \<lparr>date = addDays now 1, completed = False, completedDate = None,
       interval = 1, type = Recovery, rating = None\<rparr>"

definition stretched :: "int \<Rightarrow> ReviewSession \<Rightarrow> ReviewSession" where
  "stretched now r = r\<lparr>date := js_trunc (rat_of_int now + rat_of_int (date r - now) * (13 / 10)),
       interval := \<lceil>rat_of_int (date r - now) * (13 / 10) / rat_of_int DAY\<rceil>\<rparr>"




text \<open>Sample data for the concrete instances: a pending session and a topic around a review list.\<close>

definition pending :: "int \<Rightarrow> session_type \<Rightarrow> ReviewSession" where
  "pending d ty = \<lparr>date = d, completed = False, completedDate = None, interval = 1,
                   type = ty, rating = None\<rparr>"

definition sample_topic :: "ReviewSession list \<Rightarrow> Topic" where
  "sample_topic revs = \<lparr>topic_id = ''t1'', name = ''Graphs'', addedDate = 0, examDate = None,
                        complexity = 5, subtopics = [], summary = [], reviews = revs,
                        nextReviewDate = NoReviewsScheduled, mastery = 0,
                        topic_notes = Some []\<rparr>"


section \<open>Properties of schedule generation\<close>

lemma DAY_pos: "0 < DAY"
  by (simp add: DAY_def)

lemma addDays_gt: "1 \<le> n \<Longrightarrow> t < addDays t n"
proof -
  assume "1 \<le> n"
  then have "0 < n * DAY" using DAY_pos by simp
  then show ?thesis by (simp add: addDays_def)
qed

lemma multiplier_of_ge: "13 / 10 \<le> multiplier_of c"
  by (simp add: multiplier_of_def)

lemma multiplier_of_pos: "0 < multiplier_of c"
  using multiplier_of_ge [of c] by linarith

lemma well_typed_snoc:
  "well_typed s \<Longrightarrow> type r = (if length s = 0 then Initial else Standard) \<Longrightarrow>
   well_typed (s @ [r])"
  by (cases s) (auto simp: well_typed_def)

lemma schedule_loop_sorted:
  "0 < m \<Longrightarrow> 0 < ival \<Longrightarrow> sorted_wrt (<) (map date schedule) \<Longrightarrow>
   \<forall>r\<in>set schedule. date r < runningDate \<Longrightarrow>
   sorted_wrt (<) (map date (schedule_loop n exam m schedule ival runningDate))"
proof (induction n arbitrary: schedule ival runningDate)
  case 0
  then show ?case by simp
next
  case (Suc n)
  let ?r = "\<lparr>date = runningDate, completed = False, completedDate = None,
             interval = js_round ival,
             type = (if length schedule = 0 then Initial else Standard),
             rating = None\<rparr>"
  have pos: "0 < ival * m" using Suc.prems by simp
  then have jump: "1 \<le> \<lceil>ival * m\<rceil>" by linarith
  have next_gt: "runningDate < addDays runningDate \<lceil>ival * m\<rceil>"
    using jump by (rule addDays_gt)
  have s1: "sorted_wrt (<) (map date (schedule @ [?r]))"
    using Suc.prems by (simp add: sorted_wrt_append)
  have s2: "\<forall>r\<in>set (schedule @ [?r]). date r < addDays runningDate \<lceil>ival * m\<rceil>"
    using Suc.prems next_gt by auto
  show ?case
    using Suc.IH [OF Suc.prems(1) pos s1 s2] Suc.prems(3)
    by (simp add: Let_def)
qed

lemma schedule_loop_typed:
  "well_typed schedule \<Longrightarrow> well_typed (schedule_loop n exam m schedule ival runningDate)"
proof (induction n arbitrary: schedule ival runningDate)
  case 0
  then show ?case by simp
next
  case (Suc n)
  show ?case
    using Suc.prems Suc.IH [OF well_typed_snoc [OF Suc.prems]]
    by (simp add: Let_def)
qed

lemma schedule_loop_no_exam_length:
  "length (schedule_loop n None m schedule ival runningDate) = length schedule + n"
  by (induction n arbitrary: schedule ival runningDate) (simp_all add: Let_def)

text \<open>
  Claim C3. For a complexity between 1 and 10 and no exam date, the dates of the
  generated sessions increase strictly, there are at most 20 sessions, the first
  has type \<open>Initial\<close> and every later one has type \<open>Standard\<close>.
\<close>

theorem generateSchedule_no_exam:
  "1 \<le> c \<Longrightarrow> c \<le> 10 \<Longrightarrow>
   sorted_wrt (<) (map date (generateSchedule now c None)) \<and>
   length (generateSchedule now c None) \<le> 20 \<and>
   generateSchedule now c None \<noteq> [] \<and>
   type (hd (generateSchedule now c None)) = Initial \<and>
   list_all (\<lambda>r. type r = Standard) (tl (generateSchedule now c None))"
proof -
  let ?s = "schedule_loop 20 None (multiplier_of c) [] 1 (addDays now 1)"
  have g: "generateSchedule now c None = ?s"
    by (simp add: generateSchedule_def reconcile_def)
  have srt: "sorted_wrt (<) (map date ?s)"
    by (rule schedule_loop_sorted) (simp_all add: multiplier_of_pos)
  have len: "length ?s = 20"
    by (simp add: schedule_loop_no_exam_length)
  then have ne: "?s \<noteq> []" by auto
  have "well_typed ?s"
    by (rule schedule_loop_typed) (simp add: well_typed_def)
  with ne have ty: "type (hd ?s) = Initial \<and> list_all (\<lambda>r. type r = Standard) (tl ?s)"
    by (cases ?s) (simp_all add: well_typed_def)
  show ?thesis
    unfolding g using srt len ne ty by simp
qed

theorem generateSchedule_no_exam_witness:
  "(1::int) \<le> 8 \<and> (8::int) \<le> 10 \<and> multiplier_of 8 = 77 / 50 \<and>
   sorted_wrt (<) (map date (generateSchedule 0 8 None)) \<and>
   length (generateSchedule 0 8 None) \<le> 20 \<and>
   generateSchedule 0 8 None \<noteq> [] \<and>
   type (hd (generateSchedule 0 8 None)) = Initial \<and>
   list_all (\<lambda>r. type r = Standard) (tl (generateSchedule 0 8 None))"
proof -
  have m: "multiplier_of 8 = 77 / 50" by (simp add: multiplier_of_def)
  show ?thesis using generateSchedule_no_exam [of 8 0] m by simp
qed

section \<open>Properties of review completion\<close>

subsection \<open>findIndex\<close>

lemma findIndex_from_None:
  "findIndex_from p k xs = None \<longleftrightarrow> (\<forall>i<length xs. \<not> p (xs ! i) (k + i))"
proof (induction xs arbitrary: k)
  case Nil
  then show ?case by simp
next
  case (Cons x xs)
  show ?case
  proof (cases "p x k")
    case True
    then show ?thesis by auto
  next
    case False
    have "(\<forall>i<length (x # xs). \<not> p ((x # xs) ! i) (k + i)) \<longleftrightarrow>
          (\<forall>i<length xs. \<not> p (xs ! i) (Suc k + i))"
      using False by (auto simp: less_Suc_eq_0_disj)
    then show ?thesis using False Cons.IH [of "Suc k"] by simp
  qed
qed


lemma findIndex_None:
  "findIndex p xs = None \<longleftrightarrow> (\<forall>i<length xs. \<not> p (xs ! i) i)"
  by (simp add: findIndex_def findIndex_from_None)


lemma findIndex_date_None:
  "findIndex (\<lambda>r idx. date r = d) revs = None \<longleftrightarrow> (\<forall>r\<in>set revs. date r \<noteq> d)"
  by (simp add: findIndex_None all_set_conv_all_nth)

lemma completeReview_other: "topic_id t \<noteq> topicId \<Longrightarrow> completeReview now topicId d rt t = t"
  by (simp add: completeReview_def)

lemma completeReview_stale:
  "\<forall>r\<in>set (reviews t). date r \<noteq> d \<Longrightarrow> completeReview now topicId d rt t = t"
  using findIndex_date_None [of d "reviews t"] by (simp add: completeReview_def)

text \<open>
  Claim C9. A completion whose target date matches no session of the topic with the
  given id returns the collection as it was, and so does the deletion of an id that
  no topic of the collection has.
\<close>

theorem stale_reference_no_op:
  "((\<forall>t\<in>set topics. topic_id t = topicId \<longrightarrow> (\<forall>r\<in>set (reviews t). date r \<noteq> reviewDate)) \<longrightarrow>
      markReviewComplete now topicId reviewDate rt topics = topics) \<and>
   ((\<forall>t\<in>set topics. topic_id t \<noteq> topicId) \<longrightarrow>
      deleteTopic confirmed topicId topics = topics)"
proof (intro conjI impI)
  assume a: "\<forall>t\<in>set topics. topic_id t = topicId \<longrightarrow> (\<forall>r\<in>set (reviews t). date r \<noteq> reviewDate)"
  have "\<forall>t\<in>set topics. completeReview now topicId reviewDate rt t = t"
  proof
    fix t assume "t \<in> set topics"
    with a show "completeReview now topicId reviewDate rt t = t"
      by (cases "topic_id t = topicId") (simp_all add: completeReview_other completeReview_stale)
  qed
  then show "markReviewComplete now topicId reviewDate rt topics = topics"
    by (simp add: markReviewComplete_def map_idI)
next
  assume "\<forall>t\<in>set topics. topic_id t \<noteq> topicId"
  then show "deleteTopic confirmed topicId topics = topics"
    by (simp add: deleteTopic_def)
qed

theorem stale_reference_no_op_witness:
  "topic_id (sample_topic [pending 10 Initial]) = ''t1'' \<and>
   map date (reviews (sample_topic [pending 10 Initial])) = [10] \<and>
   markReviewComplete 20 ''t1'' 11 Easy [sample_topic [pending 10 Initial]]
     = [sample_topic [pending 10 Initial]] \<and>
   topic_id (sample_topic [pending 10 Initial]) \<noteq> ''t2'' \<and>
   deleteTopic True ''t2'' [sample_topic [pending 10 Initial]]
     = [sample_topic [pending 10 Initial]]"
proof -
  have h1: "\<forall>t\<in>set [sample_topic [pending 10 Initial]].
      topic_id t = ''t1'' \<longrightarrow> (\<forall>r\<in>set (reviews t). date r \<noteq> 11)"
    by (simp add: sample_topic_def pending_def)
  have h2: "\<forall>t\<in>set [sample_topic [pending 10 Initial]]. topic_id t \<noteq> ''t2''"
    by (simp add: sample_topic_def)
  have i: "topic_id (sample_topic [pending 10 Initial]) = ''t1''"
    by (simp add: sample_topic_def)
  have d: "map date (reviews (sample_topic [pending 10 Initial])) = [10]"
    by (simp add: sample_topic_def pending_def)
  have a: "markReviewComplete 20 ''t1'' 11 Easy [sample_topic [pending 10 Initial]]
      = [sample_topic [pending 10 Initial]]"
    using h1 stale_reference_no_op
      [of "[sample_topic [pending 10 Initial]]" "''t1''" 11 20 Easy True]
    by blast
  have b: "deleteTopic True ''t2'' [sample_topic [pending 10 Initial]]
      = [sample_topic [pending 10 Initial]]"
    using h2 stale_reference_no_op
      [of "[sample_topic [pending 10 Initial]]" "''t2''" 11 20 Easy True]
    by blast
  from h2 have n: "topic_id (sample_topic [pending 10 Initial]) \<noteq> ''t2''" by simp
  show ?thesis using i d a b n by blast
qed

text \<open>
  Claim C10. \<open>markReviewComplete\<close> keeps the collection's length and order, returns
  every topic with another id as it was, and on every topic changes at most the
  fields \<open>reviews\<close>, \<open>mastery\<close> and \<open>nextReviewDate\<close>: the id, name, added date,
  exam date, complexity, subtopics, summary and notes stay.
\<close>

theorem markReviewComplete_frame:
  "length (markReviewComplete now topicId reviewDate rt topics) = length topics \<and>
   (\<forall>k<length topics.
      (topic_id (topics ! k) \<noteq> topicId \<longrightarrow>
         markReviewComplete now topicId reviewDate rt topics ! k = topics ! k) \<and>
      markReviewComplete now topicId reviewDate rt topics ! k =
        (topics ! k)\<lparr>reviews := reviews (markReviewComplete now topicId reviewDate rt topics ! k),
                     mastery := mastery (markReviewComplete now topicId reviewDate rt topics ! k),
                     nextReviewDate := nextReviewDate (markReviewComplete now topicId reviewDate rt topics ! k)\<rparr> \<and>
      topic_id (markReviewComplete now topicId reviewDate rt topics ! k) = topic_id (topics ! k) \<and>
      name (markReviewComplete now topicId reviewDate rt topics ! k) = name (topics ! k) \<and>
      addedDate (markReviewComplete now topicId reviewDate rt topics ! k) = addedDate (topics ! k) \<and>
      examDate (markReviewComplete now topicId reviewDate rt topics ! k) = examDate (topics ! k) \<and>
      complexity (markReviewComplete now topicId reviewDate rt topics ! k) = complexity (topics ! k) \<and>
      subtopics (markReviewComplete now topicId reviewDate rt topics ! k) = subtopics (topics ! k) \<and>
      summary (markReviewComplete now topicId reviewDate rt topics ! k) = summary (topics ! k) \<and>
      topic_notes (markReviewComplete now topicId reviewDate rt topics ! k) = topic_notes (topics ! k))"
proof -
  have fr: "completeReview now topicId reviewDate rt t =
      t\<lparr>reviews := reviews (completeReview now topicId reviewDate rt t),
        mastery := mastery (completeReview now topicId reviewDate rt t),
        nextReviewDate := nextReviewDate (completeReview now topicId reviewDate rt t)\<rparr>" for t
    by (simp add: completeReview_def Let_def split: option.splits)
  show ?thesis
  proof (intro conjI allI impI)
    show "length (markReviewComplete now topicId reviewDate rt topics) = length topics"
      by (simp add: markReviewComplete_def)
  next
    fix k assume k: "k < length topics"
    then have nth: "markReviewComplete now topicId reviewDate rt topics ! k =
        completeReview now topicId reviewDate rt (topics ! k)"
      by (simp add: markReviewComplete_def)
    {
      assume "topic_id (topics ! k) \<noteq> topicId"
      then show "markReviewComplete now topicId reviewDate rt topics ! k = topics ! k"
        unfolding nth by (rule completeReview_other)
    }
    show "markReviewComplete now topicId reviewDate rt topics ! k =
        (topics ! k)\<lparr>reviews := reviews (markReviewComplete now topicId reviewDate rt topics ! k),
                     mastery := mastery (markReviewComplete now topicId reviewDate rt topics ! k),
                     nextReviewDate := nextReviewDate (markReviewComplete now topicId reviewDate rt topics ! k)\<rparr>"
      unfolding nth by (rule fr)
    show "topic_id (markReviewComplete now topicId reviewDate rt topics ! k) = topic_id (topics ! k)"
      unfolding nth by (subst fr) simp
    show "name (markReviewComplete now topicId reviewDate rt topics ! k) = name (topics ! k)"
      unfolding nth by (subst fr) simp
    show "addedDate (markReviewComplete now topicId reviewDate rt topics ! k) = addedDate (topics ! k)"
      unfolding nth by (subst fr) simp
    show "examDate (markReviewComplete now topicId reviewDate rt topics ! k) = examDate (topics ! k)"
      unfolding nth by (subst fr) simp
    show "complexity (markReviewComplete now topicId reviewDate rt topics ! k) = complexity (topics ! k)"
      unfolding nth by (subst fr) simp
    show "subtopics (markReviewComplete now topicId reviewDate rt topics ! k) = subtopics (topics ! k)"
      unfolding nth by (subst fr) simp
    show "summary (markReviewComplete now topicId reviewDate rt topics ! k) = summary (topics ! k)"
      unfolding nth by (subst fr) simp
    show "topic_notes (markReviewComplete now topicId reviewDate rt topics ! k) = topic_notes (topics ! k)"
      unfolding nth by (subst fr) simp
  qed
qed

theorem markReviewComplete_frame_witness:
  "(0::nat) < length [sample_topic [pending 10 Initial]] \<and>
   topic_id (sample_topic [pending 10 Initial]) \<noteq> ''t2'' \<and>
   markReviewComplete 20 ''t2'' 10 Good [sample_topic [pending 10 Initial]] ! 0
     = sample_topic [pending 10 Initial] \<and>
   name (markReviewComplete 20 ''t1'' 10 Good [sample_topic [pending 10 Initial]] ! 0) = ''Graphs'' \<and>
   map completed (reviews (markReviewComplete 20 ''t1'' 10 Good [sample_topic [pending 10 Initial]] ! 0))
     = [True]"
proof -
  have h1: "(0::nat) < length [sample_topic [pending 10 Initial]]" by simp
  have h2: "topic_id (sample_topic [pending 10 Initial]) \<noteq> ''t2''"
    by (simp add: sample_topic_def)
  have n: "name (sample_topic [pending 10 Initial]) = ''Graphs''"
    by (simp add: sample_topic_def)
  have c: "map completed (reviews (markReviewComplete 20 ''t1'' 10 Good [sample_topic [pending 10 Initial]] ! 0))
     = [True]"
    by (simp add: markReviewComplete_def completeReview_def sample_topic_def pending_def
        findIndex_def reschedule_def Let_def)
  show ?thesis
    using h1 h2 n c
      markReviewComplete_frame [of 20 "''t2''" 10 Good "[sample_topic [pending 10 Initial]]"]
      markReviewComplete_frame [of 20 "''t1''" 10 Good "[sample_topic [pending 10 Initial]]"]
    by simp
qed

subsection \<open>Mastery\<close>

















section \<open>Reconciliation with the exam date\<close>

lemma schedule_loop_extends:
  "length schedule \<le> length (schedule_loop n exam m schedule ival runningDate)"
proof (induction n arbitrary: schedule ival runningDate)
  case 0
  then show ?case by simp
next
  case (Suc n)
  let ?r = "\<lparr>date = runningDate, completed = False, completedDate = None,
             interval = js_round ival,
             type = (if length schedule = 0 then Initial else Standard),
             rating = None\<rparr>"
  have "length (schedule @ [?r]) \<le>
        length (schedule_loop n exam m (schedule @ [?r]) (ival * m) (addDays runningDate \<lceil>ival * m\<rceil>))"
    by (rule Suc.IH)
  then show ?case by (simp add: Let_def)
qed

lemma schedule_loop_empty_iff:
  "schedule_loop (Suc n) (Some e) m [] ival runningDate = [] \<longleftrightarrow> e < runningDate"
proof (cases "e < runningDate")
  case True
  then show ?thesis by simp
next
  case False
  let ?r = "\<lparr>date = runningDate, completed = False, completedDate = None,
             interval = js_round ival, type = Initial, rating = None\<rparr>"
  have "length [?r] \<le> length (schedule_loop n (Some e) m [?r] (ival * m) (addDays runningDate \<lceil>ival * m\<rceil>))"
    by (rule schedule_loop_extends)
  then have "schedule_loop n (Some e) m [?r] (ival * m) (addDays runningDate \<lceil>ival * m\<rceil>) \<noteq> []"
    by auto
  then show ?thesis using False by (simp add: Let_def)
qed

lemma gap_large:
  assumes "4 < \<lceil>rat_of_int (e - l) / rat_of_int DAY\<rceil>"
  shows "l < addDays e (- 2)"
proof -
  have d: "0 < rat_of_int DAY" using DAY_pos by simp
  from assms have "4 < rat_of_int (e - l) / rat_of_int DAY" by (simp add: less_ceiling_iff)
  then have "4 * rat_of_int DAY < rat_of_int (e - l)" using d by (simp add: pos_less_divide_eq)
  then have "rat_of_int (4 * DAY) < rat_of_int (e - l)" by simp
  then have "4 * DAY < e - l" by (simp only: of_int_less_iff)
  then show ?thesis using DAY_pos by (simp add: addDays_def)
qed

text \<open>
  Claim C6. With an exam date, the result is the single \<open>Final\<close> session on the exam
  date with interval 0 when the loop emitted nothing; otherwise, with \<open>gap\<close> the
  rounded-up number of days from the last session to the exam, a \<open>Final\<close> session two
  days before the exam with interval \<open>gap - 2\<close> is appended exactly when \<open>gap > 4\<close> and
  that date is after the last session. The loop emits nothing exactly when the exam
  is before tomorrow, and \<open>gap > 4\<close> alone puts the date after the last session.
\<close>

theorem exam_reconciliation:
  "generateSchedule now c (Some e) =
     (let emitted = schedule_loop 20 (Some e) (multiplier_of c) [] 1 (addDays now 1);
          gap = \<lceil>rat_of_int (e - date (last emitted)) / rat_of_int DAY\<rceil>
      in if emitted = [] then
           [\<lparr>date = e, completed = False, completedDate = None, interval = 0,
             type = Final, rating = None\<rparr>]
         else if gap > 4 \<and> addDays e (- 2) > date (last emitted) then
           emitted @ [\<lparr>date = addDays e (- 2), completed = False, completedDate = None,
                       interval = gap - 2, type = Final, rating = None\<rparr>]
         else emitted) \<and>
   (schedule_loop 20 (Some e) (multiplier_of c) [] 1 (addDays now 1) = [] \<longleftrightarrow> e < addDays now 1) \<and>
   (\<lceil>rat_of_int (e - date (last (schedule_loop 20 (Some e) (multiplier_of c) [] 1 (addDays now 1))))
        / rat_of_int DAY\<rceil> > 4 \<longrightarrow>
      addDays e (- 2) > date (last (schedule_loop 20 (Some e) (multiplier_of c) [] 1 (addDays now 1))))"
proof (intro conjI impI)
  show "generateSchedule now c (Some e) =
     (let emitted = schedule_loop 20 (Some e) (multiplier_of c) [] 1 (addDays now 1);
          gap = \<lceil>rat_of_int (e - date (last emitted)) / rat_of_int DAY\<rceil>
      in if emitted = [] then
           [\<lparr>date = e, completed = False, completedDate = None, interval = 0,
             type = Final, rating = None\<rparr>]
         else if gap > 4 \<and> addDays e (- 2) > date (last emitted) then
           emitted @ [\<lparr>date = addDays e (- 2), completed = False, completedDate = None,
                       interval = gap - 2, type = Final, rating = None\<rparr>]
         else emitted)"
    by (simp add: generateSchedule_def reconcile_def Let_def)
next
  have "(20::nat) = Suc 19" by simp
  then show "schedule_loop 20 (Some e) (multiplier_of c) [] 1 (addDays now 1) = [] \<longleftrightarrow> e < addDays now 1"
    using schedule_loop_empty_iff [of 19 e "multiplier_of c" 1 "addDays now 1"] by simp
next
  assume "4 < \<lceil>rat_of_int (e - date (last (schedule_loop 20 (Some e) (multiplier_of c) [] 1 (addDays now 1))))
        / rat_of_int DAY\<rceil>"
  then show "date (last (schedule_loop 20 (Some e) (multiplier_of c) [] 1 (addDays now 1))) < addDays e (- 2)"
    by (rule gap_large)
qed

theorem exam_reconciliation_witness:
  "generateSchedule 0 5 (Some 0) =
     [\<lparr>date = 0, completed = False, completedDate = None, interval = 0, type = Final,
       rating = None\<rparr>] \<and>
   map (\<lambda>r. (date r, interval r, type r)) (generateSchedule 0 5 (Some (20 * DAY))) =
     [(DAY, 1, Initial), (3 * DAY, 2, Standard), (7 * DAY, 4, Standard),
      (14 * DAY, 7, Standard), (18 * DAY, 4, Final)] \<and>
   4 < \<lceil>rat_of_int (20 * DAY - date (last (schedule_loop 20 (Some (20 * DAY)) (multiplier_of 5) [] 1
          (addDays 0 1)))) / rat_of_int DAY\<rceil> \<and>
   date (last (schedule_loop 20 (Some (20 * DAY)) (multiplier_of 5) [] 1 (addDays 0 1)))
     < addDays (20 * DAY) (- 2)"
proof -
  have a: "generateSchedule 0 5 (Some 0) =
     [\<lparr>date = 0, completed = False, completedDate = None, interval = 0, type = Final,
       rating = None\<rparr>]"
    by code_simp
  have b: "map (\<lambda>r. (date r, interval r, type r)) (generateSchedule 0 5 (Some (20 * DAY))) =
     [(DAY, 1, Initial), (3 * DAY, 2, Standard), (7 * DAY, 4, Standard),
      (14 * DAY, 7, Standard), (18 * DAY, 4, Final)]"
    by code_simp
  have c: "4 < \<lceil>rat_of_int (20 * DAY - date (last (schedule_loop 20 (Some (20 * DAY)) (multiplier_of 5) [] 1
          (addDays 0 1)))) / rat_of_int DAY\<rceil>"
    by code_simp
  show ?thesis
    using a b c exam_reconciliation [of 0 5 "20 * DAY"] by blast
qed

section \<open>Order of the review list\<close>

lemma reschedule_Hard:
  "reschedule now i Hard revs =
     (if list_ex (\<lambda>r. dayOf (date r) = dayOf (addDays now 1)) revs then revs
      else sort_key date (revs @ [recovery_session now]))"
  unfolding reschedule_def recovery_session_def Let_def by simp

lemma reschedule_Good: "reschedule now i Good revs = revs"
  unfolding reschedule_def by simp

lemma reschedule_Easy_None:
  "findIndex (\<lambda>r idx. idx > i \<and> \<not> completed r \<and> type r \<noteq> Final) revs = None \<Longrightarrow>
   reschedule now i Easy revs = revs"
  unfolding reschedule_def by simp

lemma reschedule_Easy_Some:
  "findIndex (\<lambda>r idx. idx > i \<and> \<not> completed r \<and> type r \<noteq> Final) revs = Some j \<Longrightarrow>
   reschedule now i Easy revs = sort_key date (revs[j := stretched now (revs ! j)])"
  unfolding reschedule_def stretched_def Let_def by simp

lemma below_last:
  "sorted_wrt (<) (map date s) \<Longrightarrow> s \<noteq> [] \<Longrightarrow> date (last s) < d \<Longrightarrow> \<forall>r\<in>set s. date r < d"
proof (induction s)
  case Nil
  then show ?case by simp
next
  case (Cons x xs)
  show ?case
  proof (cases "xs = []")
    case True
    then show ?thesis using Cons.prems by simp
  next
    case False
    then have "last xs \<in> set xs" by simp
    then have "date x < date (last xs)" using Cons.prems(1) by auto
    then have "date x < d" using Cons.prems(3) False by simp
    moreover have s: "sorted_wrt (<) (map date xs)" using Cons.prems(1) by simp
    moreover have l: "date (last xs) < d" using Cons.prems(3) False by simp
    moreover have "\<forall>r\<in>set xs. date r < d" by (rule Cons.IH [OF s False l])
    ultimately show ?thesis by simp
  qed
qed

lemma reconcile_sorted:
  assumes "sorted_wrt (<) (map date s)"
  shows "sorted_wrt (<) (map date (reconcile exam s))"
proof (cases exam)
  case None
  then show ?thesis using assms by (simp add: reconcile_def)
next
  case (Some e)
  show ?thesis
  proof (cases "s = []")
    case True
    then show ?thesis using Some by (simp add: reconcile_def)
  next
    case False
    have app: "sorted_wrt (<) (map date (s @ [r]))" if "date (last s) < date r" for r
      using below_last [OF assms False that] assms by (simp add: sorted_wrt_append)
    let ?gap = "\<lceil>rat_of_int (e - date (last s)) / rat_of_int DAY\<rceil>"
    let ?f = "\<lparr>date = addDays e (- 2), completed = False, completedDate = None,
               interval = ?gap - 2, type = Final, rating = None\<rparr>"
    have r: "reconcile exam s =
        (if ?gap > 4 \<and> addDays e (- 2) > date (last s) then s @ [?f] else s)"
      using Some False by (simp add: reconcile_def Let_def)
    show ?thesis
    proof (cases "?gap > 4 \<and> addDays e (- 2) > date (last s)")
      case True
      then have "date (last s) < date ?f" by simp
      have "reconcile exam s = s @ [?f]" unfolding r using True by (rule if_P)
      with app [OF \<open>date (last s) < date ?f\<close>] show ?thesis by simp
    next
      case False
      then have "reconcile exam s = s" unfolding r by (rule if_not_P)
      then show ?thesis using assms by simp
    qed
  qed
qed

lemma generateSchedule_strict: "sorted_wrt (<) (map date (generateSchedule now c exam))"
  unfolding generateSchedule_def
  by (rule reconcile_sorted, rule schedule_loop_sorted) (simp_all add: multiplier_of_pos)

lemma strict_sorted_imp_sorted: "sorted_wrt (<) (xs :: int list) \<Longrightarrow> sorted xs"
  by (rule sorted_wrt_mono_rel [of xs "(<)"]) auto

lemma generateSchedule_sorted: "sorted (map date (generateSchedule now c exam))"
  by (rule strict_sorted_imp_sorted) (rule generateSchedule_strict)

lemma reschedule_sorted:
  assumes "sorted (map date revs)"
  shows "sorted (map date (reschedule now i rt revs))"
proof (cases rt)
  case Hard
  then show ?thesis using assms by (simp add: reschedule_Hard)
next
  case Good
  then show ?thesis using assms by (simp add: reschedule_Good)
next
  case Easy
  show ?thesis
  proof (cases "findIndex (\<lambda>r idx. idx > i \<and> \<not> completed r \<and> type r \<noteq> Final) revs")
    case None
    then show ?thesis using Easy assms by (simp add: reschedule_Easy_None)
  next
    case (Some j)
    then show ?thesis using Easy by (simp add: reschedule_Easy_Some)
  qed
qed

lemma map_date_marked:
  "map date (revs[i := (revs ! i)\<lparr>completed := b, rating := r, completedDate := c\<rparr>]) = map date revs"
proof -
  have "map date (revs[i := (revs ! i)\<lparr>completed := b, rating := r, completedDate := c\<rparr>])
        = map date (revs[i := revs ! i])"
    by (simp only: map_update) simp
  then show ?thesis by simp
qed

lemma completeReview_sorted:
  "sorted (map date (reviews t)) \<Longrightarrow>
   sorted (map date (reviews (completeReview now topicId d rt t)))"
  by (simp add: completeReview_def Let_def reschedule_sorted map_date_marked split: option.splits)

lemma reachable_sorted:
  "reachable ts \<Longrightarrow> \<forall>t\<in>set ts. sorted (map date (reviews t))"
proof (induction rule: reachable.induct)
  case start
  then show ?case by simp
next
  case (added ts now newId nm exam c subs summ)
  then show ?case by (simp add: analyzeAndAddTopic_def Let_def generateSchedule_sorted)
next
  case (marked ts now topicId reviewDate rt)
  then show ?case by (auto simp: markReviewComplete_def completeReview_sorted)
next
  case (noted ts topicId note_text)
  then show ?case by (auto simp: updateNotes_def)
next
  case (deleted ts confirmed topicId)
  then show ?case by (auto simp: deleteTopic_def)
qed

text \<open>
  Claim C4. The review list is in ascending order of date: as \<open>generateSchedule\<close>
  returns it, in every topic of every collection the component can hold, and after
  a completion of a topic whose list was in order; the \<open>Hard\<close> branch that inserts and
  the \<open>Easy\<close> branch that moves a date return a sorted list whatever they received.
\<close>

theorem reviews_sorted_at_rest:
  "sorted (map date (generateSchedule now c exam)) \<and>
   (reachable ts \<longrightarrow> (\<forall>t\<in>set ts. sorted (map date (reviews t)))) \<and>
   (sorted (map date (reviews t)) \<longrightarrow>
      sorted (map date (reviews (completeReview now topicId reviewDate rt t)))) \<and>
   (\<not> list_ex (\<lambda>r. dayOf (date r) = dayOf (addDays now 1)) revs \<longrightarrow>
      sorted (map date (reschedule now i Hard revs))) \<and>
   (findIndex (\<lambda>r idx. idx > i \<and> \<not> completed r \<and> type r \<noteq> Final) revs \<noteq> None \<longrightarrow>
      sorted (map date (reschedule now i Easy revs)))"
proof (intro conjI impI)
  show "sorted (map date (generateSchedule now c exam))" by (rule generateSchedule_sorted)
next
  assume "reachable ts"
  then show "\<forall>t\<in>set ts. sorted (map date (reviews t))" by (rule reachable_sorted)
next
  assume "sorted (map date (reviews t))"
  then show "sorted (map date (reviews (completeReview now topicId reviewDate rt t)))"
    by (rule completeReview_sorted)
next
  assume "\<not> list_ex (\<lambda>r. dayOf (date r) = dayOf (addDays now 1)) revs"
  then show "sorted (map date (reschedule now i Hard revs))"
    by (simp add: reschedule_def Let_def)
next
  assume "findIndex (\<lambda>r idx. idx > i \<and> \<not> completed r \<and> type r \<noteq> Final) revs \<noteq> None"
  then show "sorted (map date (reschedule now i Easy revs))"
    by (auto simp: reschedule_def Let_def)
qed

theorem reviews_sorted_at_rest_witness:
  "reachable (markReviewComplete 5 ''t1'' 10 Hard (analyzeAndAddTopic 0 ''t1'' ''Graphs'' None 5 [] [] [])) \<and>
   list_all (\<lambda>t. sorted (map date (reviews t)))
     (markReviewComplete 5 ''t1'' 10 Hard (analyzeAndAddTopic 0 ''t1'' ''Graphs'' None 5 [] [] [])) \<and>
   sorted (map date (reviews (sample_topic [pending 10 Initial, pending 30 Standard]))) \<and>
   sorted (map date (reviews (completeReview 5 ''t1'' 10 Easy
      (sample_topic [pending 10 Initial, pending 30 Standard])))) \<and>
   \<not> list_ex (\<lambda>r. dayOf (date r) = dayOf (addDays 5 1)) [pending 10 Initial, pending 30 Standard] \<and>
   map date (reschedule 5 0 Hard [pending 10 Initial, pending 30 Standard]) = [10, 30, 5 + DAY] \<and>
   findIndex (\<lambda>r idx. idx > 0 \<and> \<not> completed r \<and> type r \<noteq> Final)
      [pending 10 Initial, pending 30 Standard] \<noteq> None \<and>
   map date (reschedule 5 0 Easy [pending 10 Initial, pending 30 Standard]) = [10, 37] \<and>
   sorted (map date (reschedule 5 0 Hard [pending 10 Initial, pending 30 Standard])) \<and>
   sorted (map date (reschedule 5 0 Easy [pending 10 Initial, pending 30 Standard]))"
proof -
  let ?ts = "markReviewComplete 5 ''t1'' 10 Hard (analyzeAndAddTopic 0 ''t1'' ''Graphs'' None 5 [] [] [])"
  let ?revs = "[pending 10 Initial, pending 30 Standard]"
  have h1: "reachable ?ts" by (intro reachable.intros)
  have h2: "sorted (map date (reviews (sample_topic ?revs)))"
    by (simp add: sample_topic_def pending_def)
  have h3: "\<not> list_ex (\<lambda>r. dayOf (date r) = dayOf (addDays 5 1)) ?revs"
    by (simp add: pending_def dayOf_def addDays_def DAY_def)
  have h4: "findIndex (\<lambda>r idx. idx > 0 \<and> \<not> completed r \<and> type r \<noteq> Final) ?revs \<noteq> None"
    by (simp add: findIndex_def pending_def)
  have v1: "map date (reschedule 5 0 Hard ?revs) = [10, 30, 5 + DAY]"
    by (simp add: reschedule_def Let_def pending_def dayOf_def addDays_def DAY_def)
  have v2: "map date (reschedule 5 0 Easy ?revs) = [10, 37]"
    by code_simp
  show ?thesis
    using h1 h2 h3 h4 v1 v2
      reviews_sorted_at_rest [where now = 5 and ts = ?ts and t = "sample_topic ?revs"
        and topicId = "''t1''" and reviewDate = 10 and rt = Easy and revs = ?revs and i = 0]
    unfolding list_all_iff by blast
qed

section \<open>The Hard branch\<close>













section \<open>The Easy branch\<close>











section \<open>Outcome fields\<close>









section \<open>The activity heatmap\<close>















end
